theory Spec2Isabelle
  imports Main "HOL-Library.Sublist"
begin

section \<open>JavaScript values\<close>

text \<open>
  The values that flow through \<^verbatim>\<open>lib/exec.js\<close>: a step's request is JSON read from the
  state file, the transport and the browser driver hand back strings, numbers and objects.
  A plain object is an association list in insertion order (the order lodash iterates in).
  \<open>JErr\<close> stands for an object that is neither an array, a plain object nor a string (an
  \<^verbatim>\<open>Error\<close> instance). Numbers are integers: the code only copies numbers, prints them and
  compares a status code with 200.
\<close>

datatype jsval =
    JUndefined
  | JNull
  | JBool bool
  | JNum int
  | JStr string
  | JArr "jsval list"
  | JObj "(string \<times> jsval) list"
  | JErr string

text \<open>
  Exceptions and rejection reasons. \<open>Error m\<close> is \<^verbatim>\<open>new Error(m)\<close>; \<open>TypeError\<close> is what the
  runtime raises on a property read from \<^verbatim>\<open>undefined\<close> or \<^verbatim>\<open>null\<close> and on a call of a
  non-function; \<open>TemplateError\<close> is raised by the template engine, \<open>TimeoutError\<close> by the
  browser driver's wait, \<open>DriverError\<close> by any other driver command.
\<close>

datatype error = TypeError | Error string | TemplateError | TimeoutError | DriverError string

fun truthy :: "jsval \<Rightarrow> bool" where
  "truthy JUndefined = False"
| "truthy JNull = False"
| "truthy (JBool b) = b"
| "truthy (JNum n) = (n \<noteq> 0)"
| "truthy (JStr s) = (s \<noteq> [])"
| "truthy _ = True"

text \<open>
  \<^verbatim>\<open>v.k\<close> for the property names \<open>k\<close> that \<^verbatim>\<open>exec.js\<close> reads (\<^verbatim>\<open>data\<close>, \<^verbatim>\<open>browser\<close>, \<^verbatim>\<open>url\<close>,
  \<^verbatim>\<open>redirect_uri\<close>, \<^verbatim>\<open>action\<close>, \<^verbatim>\<open>code\<close>): a \<^verbatim>\<open>TypeError\<close> on \<^verbatim>\<open>undefined\<close> and \<^verbatim>\<open>null\<close>, the
  field of a plain object, and \<^verbatim>\<open>undefined\<close> on every other value, none of which has a
  property of one of these names.
\<close>

fun get_prop :: "jsval \<Rightarrow> string \<Rightarrow> error + jsval" where
  "get_prop JUndefined k = Inl TypeError"
| "get_prop JNull k = Inl TypeError"
| "get_prop (JObj kvs) k = Inr (case map_of kvs k of None \<Rightarrow> JUndefined | Some v \<Rightarrow> v)"
| "get_prop _ k = Inr JUndefined"

fun digits :: "nat \<Rightarrow> string" where
  "digits n = (if n < 10 then [''0123456789'' ! n]
               else digits (n div 10) @ [''0123456789'' ! (n mod 10)])"

fun join :: "string \<Rightarrow> string list \<Rightarrow> string" where
  "join sep [] = []"
| "join sep [x] = x"
| "join sep (x # y # ys) = x @ sep @ join sep (y # ys)"

text \<open>
  String conversion, as \<^verbatim>\<open>'...' + v\<close>, \<^verbatim>\<open>s.indexOf(v)\<close> and \<^verbatim>\<open>o[v]\<close> apply it. Integers
  print in plain decimal (what ECMAScript does below \<open>10\<^sup>2\<^sup>1\<close>).
\<close>

fun js_to_string :: "jsval \<Rightarrow> string" where
  "js_to_string JUndefined = ''undefined''"
| "js_to_string JNull = ''null''"
| "js_to_string (JBool b) = (if b then ''true'' else ''false'')"
| "js_to_string (JNum n) = (if n < 0 then ''-'' @ digits (nat (- n)) else digits (nat n))"
| "js_to_string (JStr s) = s"
| "js_to_string (JArr xs) =
     join '','' (map (\<lambda>x. if x = JUndefined \<or> x = JNull then [] else js_to_string x) xs)"
| "js_to_string (JObj kvs) = ''[object Object]''"
| "js_to_string (JErr m) = ''Error: '' @ m"

section \<open>The template compiler\<close>

text \<open>
  \<^verbatim>\<open>handlebars.compile(obj, { noEscape: true })(context)\<close> is a call into the handlebars
  library: the engine is a parameter, a function of the template, the options and the
  context that renders a string or raises (a template that does not parse raises).
\<close>

record hb_options =
  noEscape :: bool

type_synonym hb_engine = "string \<Rightarrow> hb_options \<Rightarrow> jsval \<Rightarrow> error + string"

text \<open>An exception in one iteration of \<^verbatim>\<open>_.map\<close> or \<^verbatim>\<open>_.mapValues\<close> ends the iteration.\<close>

fun sequence_sum :: "('e + 'a) list \<Rightarrow> 'e + 'a list" where
  "sequence_sum [] = Inr []"
| "sequence_sum (Inl e # _) = Inl e"
| "sequence_sum (Inr x # rs) =
     (case sequence_sum rs of Inl e \<Rightarrow> Inl e | Inr xs \<Rightarrow> Inr (x # xs))"

fun loop :: "hb_engine \<Rightarrow> jsval \<Rightarrow> jsval \<Rightarrow> error + jsval" where
  "loop hb context (JArr xs) = map_sum id JArr (sequence_sum (map (loop hb context) xs))"
| "loop hb context (JObj kvs) =
     map_sum id JObj
       (sequence_sum (map (\<lambda>(k, v). map_sum id (Pair k) (loop hb context v)) kvs))"
| "loop hb context (JStr s) = map_sum id JStr (hb s \<lparr>noEscape = True\<rparr> context)"
| "loop hb context obj = Inr obj"

section \<open>Steps, the outside world and the outcome of a run\<close>

text \<open>
  A step as \<^verbatim>\<open>exec.js\<close> sees it. The response record is an object that the runners write
  field by field: a map from field names to values, an unwritten field being absent.
\<close>

record step =
  type :: jsval
  request :: jsval
  compiled :: jsval
  response :: "string \<rightharpoonup> jsval"

definition set_response :: "step \<Rightarrow> string \<Rightarrow> jsval \<Rightarrow> step" where
  "set_response step k v = step\<lparr>response := (response step)(k \<mapsto> v)\<rparr>"

text \<open>
  The response object of the \<^verbatim>\<open>request\<close> library, and what a call
  \<^verbatim>\<open>request(options, function(error, response, body) ...)\<close> does: it raises at once, or it
  invokes the callback with its three arguments, \<^verbatim>\<open>response\<close> being \<^verbatim>\<open>undefined\<close> when no
  response was received.
\<close>

record incoming =
  statusCode :: int
  headers :: jsval

datatype reply = SyncThrow error | Callback jsval "incoming option" jsval

text \<open>
  The browser driver (selenium-webdriver), as a stub: whether navigation fails, the title
  that the \<open>k\<close>-th title query returns, how many times a wait evaluates its condition
  within a given number of milliseconds, and whether the commands queued behind a failed
  command with no error handler are discarded (selenium-webdriver's control flow, which
  runs queued commands in order, discards them) or run all the same.
\<close>

record webdriver_stub =
  nav_error :: "error option"
  titles :: "nat \<Rightarrow> string"
  polls_within :: "nat \<Rightarrow> nat"
  discards_queued :: bool

record urlObject =
  href :: string
  query :: jsval

text \<open>Everything \<^verbatim>\<open>exec.js\<close> requires: the other modules and the libraries.\<close>

record env =
  data_context :: jsval
  handlebars :: hb_engine
  http_request :: "jsval \<Rightarrow> reply"
  url_parse :: "jsval \<Rightarrow> bool \<Rightarrow> error + urlObject"
  url_format :: "urlObject \<Rightarrow> string"
  capabilities :: "string \<Rightarrow> bool"
  osenv_home :: string
  webdriver :: webdriver_stub

text \<open>
  What a run leaves behind outside the step: the browser sessions built, the addresses
  navigated to, the number of title queries and of sessions quit, and the errors raised
  inside a library callback with no handler, which reach no caller.
\<close>

record session =
  browser_name :: jsval
  chrome_arguments :: "string list"

record effects =
  sessions :: "session list"
  visited :: "string list"
  title_reads :: nat
  quits :: nat
  uncaught :: "error list"

text \<open>
  The outcome of calling an exported function: it throws, or it returns a promise that
  is resolved with the response record, is rejected, or is never settled.
\<close>

datatype outcome = Resolved "string \<rightharpoonup> jsval" | Rejected error | Pending | Threw error

definition compile :: "env \<Rightarrow> jsval \<Rightarrow> error + jsval" where
  "compile env req = (let context = data_context env in loop (handlebars env) context req)"

section \<open>The HTTP runner\<close>

text \<open>
  The callback that \<^verbatim>\<open>exports.http\<close> hands to \<^verbatim>\<open>request\<close>. Its first statement reads
  \<^verbatim>\<open>response.statusCode\<close>: with \<^verbatim>\<open>response\<close> undefined this raises a \<^verbatim>\<open>TypeError\<close> inside the
  library's callback, which no one catches, so that \<^verbatim>\<open>resolve\<close> is never called (the
  library invokes the callback from a later turn of the event loop, after the promise
  constructor has returned).
\<close>

definition http_callback ::
  "step \<Rightarrow> effects \<Rightarrow> jsval \<Rightarrow> incoming option \<Rightarrow> jsval \<Rightarrow> outcome \<times> step \<times> effects" where
  "http_callback step eff err res body =
     (case res of
        None \<Rightarrow> (Pending, step, eff\<lparr>uncaught := uncaught eff @ [TypeError]\<rparr>)
      | Some r \<Rightarrow>
          (let step1 = set_response step ''status'' (JNum (statusCode r));
               step2 = set_response step1 ''completed'' (JBool True);
               step3 = (if truthy err \<or> statusCode r \<noteq> 200
                        then set_response step2 ''error'' (JBool True) else step2);
               step4 = set_response step3 ''headers'' (headers r);
               step5 = set_response step4 ''body'' body
           in (Resolved (response step5), step5, eff)))"

text \<open>
  \<^verbatim>\<open>exports.http\<close>: the promise takes \<^verbatim>\<open>resolve\<close> alone; an exception of the call of
  \<^verbatim>\<open>request\<close> itself, raised inside the promise constructor, rejects the promise.
\<close>

definition http :: "env \<Rightarrow> step \<Rightarrow> effects \<Rightarrow> outcome \<times> step \<times> effects" where
  "http env step eff =
     (case http_request env (compiled step) of
        SyncThrow e \<Rightarrow> (Rejected e, step, eff)
      | Callback err res body \<Rightarrow> http_callback step eff err res body)"

section \<open>The OAuth runner\<close>

text \<open>
  \<^verbatim>\<open>exports.driver\<close>: \<^verbatim>\<open>webdriver.Capabilities[browser]()\<close> is a call of \<^verbatim>\<open>undefined\<close> for a
  name that the library does not define; \<^verbatim>\<open>builder.build()\<close> starts a session.
\<close>

definition driver :: "env \<Rightarrow> jsval \<Rightarrow> effects \<Rightarrow> error + effects" where
  "driver env browser eff =
     (let browser = (if truthy browser then browser else JStr ''phantomjs'') in
      if \<not> capabilities env (js_to_string browser) then Inl TypeError
      else Inr (eff\<lparr>sessions := sessions eff @
                  [\<lparr>browser_name = browser,
                    chrome_arguments =
                      (if browser = JStr ''chrome''
                       then [''user-data-dir='' @ osenv_home env @ ''/.kapit/chrome-profile'']
                       else [])\<rparr>]\<rparr>))"

text \<open>\<^verbatim>\<open>title.indexOf(compiled.redirect_uri) === 0\<close>\<close>

definition title_matches :: "jsval \<Rightarrow> string \<Rightarrow> error + bool" where
  "title_matches compiled_data title =
     (case get_prop compiled_data ''redirect_uri'' of
        Inl e \<Rightarrow> Inl e
      | Inr marker \<Rightarrow> Inr (prefix (js_to_string marker) title))"

text \<open>
  \<^verbatim>\<open>driver.wait(condition, ms)\<close>: the condition is evaluated on the title of each query
  until it holds, it raises, or the polls that fit into \<open>ms\<close> are used up. The result is
  the failure, if any, and the number of title queries made so far.
\<close>

fun wait_until ::
  "(string \<Rightarrow> error + bool) \<Rightarrow> (nat \<Rightarrow> string) \<Rightarrow> nat \<Rightarrow> nat \<Rightarrow> error option \<times> nat" where
  "wait_until cond ts 0 k = (Some TimeoutError, k)"
| "wait_until cond ts (Suc n) k =
     (case cond (ts k) of
        Inl e \<Rightarrow> (Some e, Suc k)
      | Inr True \<Rightarrow> (None, Suc k)
      | Inr False \<Rightarrow> wait_until cond ts n (Suc k))"

fun split_on :: "char \<Rightarrow> string \<Rightarrow> string list" where
  "split_on c [] = [[]]"
| "split_on c (x # xs) =
     (if x = c then [] # split_on c xs
      else (case split_on c xs of [] \<Rightarrow> [[x]] | y # ys \<Rightarrow> (x # y) # ys))"

text \<open>\<^verbatim>\<open>url.parse(title.split(' ')[0], true).query.code\<close>\<close>

definition extract_code :: "env \<Rightarrow> string \<Rightarrow> error + jsval" where
  "extract_code env title =
     (let token = (case split_on CHR '' '' title of [] \<Rightarrow> JUndefined | t # _ \<Rightarrow> JStr t) in
      case url_parse env token True of
        Inl e \<Rightarrow> Inl e
      | Inr u \<Rightarrow> get_prop (query u) ''code'')"

text \<open>
  The commands queued behind the wait: \<^verbatim>\<open>driver.getTitle()\<close> with the callback that writes
  \<^verbatim>\<open>completed\<close> and \<^verbatim>\<open>code\<close>, then \<^verbatim>\<open>driver.quit()\<close> with the callback that resolves the
  promise. \<open>k\<close> is the number of title queries made before.
\<close>

definition after_wait :: "env \<Rightarrow> step \<Rightarrow> effects \<Rightarrow> nat \<Rightarrow> outcome \<times> step \<times> effects" where
  "after_wait env step eff k =
     (let wd = webdriver env;
          title = titles wd k;
          eff1 = eff\<lparr>title_reads := Suc k\<rparr>;
          step1 = set_response step ''completed'' (JBool True) in
      case extract_code env title of
        Inl e \<Rightarrow>
          (let eff2 = eff1\<lparr>uncaught := uncaught eff1 @ [e]\<rparr> in
           if discards_queued wd then (Pending, step1, eff2)
           else (Resolved (response step1), step1, eff2\<lparr>quits := Suc (quits eff2)\<rparr>))
      | Inr code \<Rightarrow>
          (let step2 = set_response step1 ''code'' code in
           (Resolved (response step2), step2, eff1\<lparr>quits := Suc (quits eff1)\<rparr>)))"

text \<open>
  The body of the promise in \<^verbatim>\<open>oauthAuthorize\<close>. Only \<^verbatim>\<open>resolve\<close> is taken from the promise
  constructor, and it is called in the callback of \<^verbatim>\<open>driver.quit()\<close> alone. No driver
  promise is given an error handler: a failed command is reported inside the driver.
\<close>

definition authorize_flow ::
  "env \<Rightarrow> jsval \<Rightarrow> urlObject \<Rightarrow> step \<Rightarrow> effects \<Rightarrow> outcome \<times> step \<times> effects" where
  "authorize_flow env compiled_data endpoint step eff =
     (let wd = webdriver env;
          eff1 = eff\<lparr>visited := visited eff @ [url_format env endpoint]\<rparr> in
      case nav_error wd of
        Some e \<Rightarrow> (Pending, step, eff1\<lparr>uncaught := uncaught eff1 @ [e]\<rparr>)
      | None \<Rightarrow>
         (case wait_until (title_matches compiled_data) (titles wd)
                 (polls_within wd 60000) (title_reads eff1) of
            (Some e, k) \<Rightarrow>
              (let eff2 = eff1\<lparr>title_reads := k, uncaught := uncaught eff1 @ [e]\<rparr> in
               if discards_queued wd then (Pending, step, eff2)
               else after_wait env step eff2 k)
          | (None, k) \<Rightarrow> after_wait env step (eff1\<lparr>title_reads := k\<rparr>) k))"

text \<open>
  \<^verbatim>\<open>exports.oauthAuthorize\<close>: the three statements before the promise throw where they
  fail, the session once built staying open.
\<close>

definition oauthAuthorize :: "env \<Rightarrow> step \<Rightarrow> effects \<Rightarrow> outcome \<times> step \<times> effects" where
  "oauthAuthorize env step eff =
     (case get_prop (compiled step) ''data'' of
        Inl e \<Rightarrow> (Threw e, step, eff)
      | Inr compiled_data \<Rightarrow>
         (case get_prop compiled_data ''browser'' of
            Inl e \<Rightarrow> (Threw e, step, eff)
          | Inr browser \<Rightarrow>
             (case driver env browser eff of
                Inl e \<Rightarrow> (Threw e, step, eff)
              | Inr eff1 \<Rightarrow>
                 (case get_prop (compiled step) ''url'' of
                    Inl e \<Rightarrow> (Threw e, step, eff1)
                  | Inr u \<Rightarrow>
                     (case url_parse env u False of
                        Inl e \<Rightarrow> (Threw e, step, eff1)
                      | Inr endpoint \<Rightarrow>
                          authorize_flow env compiled_data endpoint step eff1)))))"

text \<open>\<^verbatim>\<open>exports.oauth\<close> switches on the action of the request as written, not as compiled.\<close>

definition oauth :: "env \<Rightarrow> step \<Rightarrow> effects \<Rightarrow> outcome \<times> step \<times> effects" where
  "oauth env step eff =
     (case get_prop (request step) ''action'' of
        Inl e \<Rightarrow> (Threw e, step, eff)
      | Inr action \<Rightarrow>
          if action = JStr ''authorize'' then oauthAuthorize env step eff
          else (Rejected (Error (''Unknown OAuth action: '' @ js_to_string action)), step, eff))"

section \<open>The dispatcher\<close>

text \<open>
  \<^verbatim>\<open>exports.step\<close>: an exception of \<^verbatim>\<open>compile\<close> leaves the function before \<^verbatim>\<open>step.compiled\<close>
  is assigned.
\<close>

definition exports_step :: "env \<Rightarrow> step \<Rightarrow> effects \<Rightarrow> outcome \<times> step \<times> effects" where
  "exports_step env step eff =
     (case compile env (request step) of
        Inl e \<Rightarrow> (Threw e, step, eff)
      | Inr c \<Rightarrow>
          (let step = step\<lparr>compiled := c\<rparr> in
           if type step = JStr ''HTTP'' then http env step eff
           else if type step = JStr ''OAUTH'' then oauth env step eff
           else (Rejected (Error (''Unknown request type: '' @ js_to_string (type step))),
                 step, eff)))"

section \<open>Notions that the properties are stated in\<close>

text \<open>The templates of a value: its string leaves, in traversal order.\<close>

fun string_leaves :: "jsval \<Rightarrow> string list" where
  "string_leaves (JArr xs) = concat (map string_leaves xs)"
| "string_leaves (JObj kvs) = concat (map (\<lambda>(k, v). string_leaves v) kvs)"
| "string_leaves (JStr s) = [s]"
| "string_leaves _ = []"

text \<open>
  Two values have the same container structure: arrays of the same length whose elements
  correspond in order, objects with the same keys in the same order whose values
  correspond, a string for a string, and the same value for anything else.
\<close>

fun same_shape :: "jsval \<Rightarrow> jsval \<Rightarrow> bool" where
  "same_shape (JArr xs) (JArr ys) = list_all2 same_shape xs ys"
| "same_shape (JObj kvs) (JObj kvs') =
     (map fst kvs = map fst kvs' \<and> list_all2 same_shape (map snd kvs) (map snd kvs'))"
| "same_shape (JStr _) (JStr _) = True"
| "same_shape a b = (a = b)"




text \<open>A template marker is an opening pair of braces.\<close>

fun has_marker :: "string \<Rightarrow> bool" where
  "has_marker (a # b # cs) = ((a = CHR ''{'' \<and> b = CHR ''{'') \<or> has_marker (b # cs))"
| "has_marker _ = False"

definition marker_free :: "jsval \<Rightarrow> bool" where
  "marker_free v = list_all (\<lambda>s. \<not> has_marker s) (string_leaves v)"

section \<open>Reference instances of the libraries\<close>

text \<open>
  Modelled from the spec: the handlebars library is not part of the repository. Section 6
  describes the template syntax as double-mustache variable interpolation in string
  leaves, evaluated against the context mapping, with raw substitution when escaping is
  disabled and undefined variables rendering as empty; section 4.1 has a malformed
  expression raise a rendering error. The instance below does that for expressions that
  are a variable name, and raises on every other expression.
\<close>

definition escape_html :: "string \<Rightarrow> string" where
  "escape_html s = concat (map (\<lambda>c.
      if c = CHR ''&'' then ''&amp;''
      else if c = CHR ''<'' then ''&lt;''
      else if c = CHR ''>'' then ''&gt;''
      else if c = CHR 0x22 then ''&quot;''
      else if c = CHR 0x27 then ''&#x27;''
      else [c]) s)"

definition trim_spaces :: "string \<Rightarrow> string" where
  "trim_spaces s = rev (dropWhile (\<lambda>c. c = CHR '' '') (rev (dropWhile (\<lambda>c. c = CHR '' '') s)))"

definition is_name :: "string \<Rightarrow> bool" where
  "is_name s = (s \<noteq> [] \<and>
     list_all (\<lambda>c. c \<in> set ''abcdefghijklmnopqrstuvwxyzABCDEFGHIJKLMNOPQRSTUVWXYZ0123456789_'') s)"

definition ref_variable :: "hb_options \<Rightarrow> jsval \<Rightarrow> string \<Rightarrow> error + string" where
  "ref_variable opts ctx expr =
     (let name = trim_spaces expr in
      if \<not> is_name name then Inl TemplateError
      else (case get_prop ctx name of
              Inl e \<Rightarrow> Inr []
            | Inr v \<Rightarrow>
                (let text = (if v = JUndefined \<or> v = JNull then [] else js_to_string v)
                 in Inr (if noEscape opts then text else escape_html text))))"

fun ref_scan :: "hb_options \<Rightarrow> jsval \<Rightarrow> string option \<Rightarrow> string \<Rightarrow> error + string" where
  "ref_scan opts ctx None (a # b # cs) =
     (if a = CHR ''{'' \<and> b = CHR ''{'' then ref_scan opts ctx (Some []) cs
      else map_sum id ((#) a) (ref_scan opts ctx None (b # cs)))"
| "ref_scan opts ctx None cs = Inr cs"
| "ref_scan opts ctx (Some acc) (a # b # cs) =
     (if a = CHR ''}'' \<and> b = CHR ''}''
      then (case ref_variable opts ctx (rev acc) of
              Inl e \<Rightarrow> Inl e
            | Inr v \<Rightarrow> map_sum id ((@) v) (ref_scan opts ctx None cs))
      else ref_scan opts ctx (Some (a # acc)) (b # cs))"
| "ref_scan opts ctx (Some acc) cs = Inl TemplateError"

definition ref_handlebars :: hb_engine where
  "ref_handlebars s opts ctx = ref_scan opts ctx None s"

text \<open>
  Modelled from the spec: Node's \<^verbatim>\<open>url\<close> module is not part of the repository. Section 4.4
  has the first token of the title interpreted as a URL whose \<^verbatim>\<open>code\<close> query parameter is
  read. The instance below takes the query to be what follows the first question mark, up
  to a hash sign, as \<^verbatim>\<open>name=value\<close> pairs separated by ampersands; it raises on a value
  that is not a string.
\<close>

definition ref_query :: "string \<Rightarrow> (string \<times> jsval) list" where
  "ref_query s =
     (let q = drop 1 (dropWhile (\<lambda>c. c \<noteq> CHR ''?'') (takeWhile (\<lambda>c. c \<noteq> CHR ''#'') s)) in
      if q = [] then []
      else map (\<lambda>p. (takeWhile (\<lambda>c. c \<noteq> CHR ''='') p,
                      JStr (drop 1 (dropWhile (\<lambda>c. c \<noteq> CHR ''='') p))))
               (split_on CHR ''&'' q))"

fun ref_url_parse :: "jsval \<Rightarrow> bool \<Rightarrow> error + urlObject" where
  "ref_url_parse (JStr s) parseQueryString =
     Inr \<lparr>href = s,
          query = (if parseQueryString then JObj (ref_query s) else JNull)\<rparr>"
| "ref_url_parse _ parseQueryString = Inl TypeError"

definition ref_env :: "jsval \<Rightarrow> (jsval \<Rightarrow> reply) \<Rightarrow> webdriver_stub \<Rightarrow> env" where
  "ref_env ctx transport wd =
     \<lparr>data_context = ctx,
      handlebars = ref_handlebars,
      http_request = transport,
      url_parse = ref_url_parse,
      url_format = href,
      capabilities = (\<lambda>n. n \<in> set [''chrome'', ''firefox'', ''phantomjs'']),
      osenv_home = ''/home/user'',
      webdriver = wd\<rparr>"

definition no_effects :: effects where
  "no_effects = \<lparr>sessions = [], visited = [], title_reads = 0, quits = 0, uncaught = []\<rparr>"

section \<open>Concrete steps and stubs\<close>

text \<open>The inputs of the examples in section 8 of the specification.\<close>

definition ada_context :: jsval where
  "ada_context = JObj [(''name'', JStr ''Ada'')]"

definition greeting :: jsval where
  "greeting = JObj [(''greeting'', JStr ''Hello {{name}}'')]"

definition greeting_compiled :: jsval where
  "greeting_compiled = JObj [(''greeting'', JStr ''Hello Ada'')]"

definition nested_request :: jsval where
  "nested_request =
     JObj [(''url'', JStr ''https://api.test/{{name}}''),
           (''retries'', JNum 3),
           (''tags'', JArr [JStr ''{{name}}'', JBool True, JNull, JArr []]),
           (''headers'', JObj [(''X-User'', JStr ''{{ name }}'')])]"

definition idle_driver :: webdriver_stub where
  "idle_driver =
     \<lparr>nav_error = None, titles = (\<lambda>k. ''Sign in''),
      polls_within = (\<lambda>ms. ms div 20000), discards_queued = True\<rparr>"

definition lenient_idle_driver :: webdriver_stub where
  "lenient_idle_driver = idle_driver\<lparr>discards_queued := False\<rparr>"

definition redirecting_driver :: webdriver_stub where
  "redirecting_driver =
     \<lparr>nav_error = None,
      titles = (\<lambda>k. if k = 0 then ''Sign in'' else ''https://cb?code=abc123 Page Title''),
      polls_within = (\<lambda>ms. ms div 20000), discards_queued = True\<rparr>"

definition refused :: "jsval \<Rightarrow> reply" where
  "refused options = Callback (JErr ''connect ECONNREFUSED'') None JUndefined"

definition replies :: "int \<Rightarrow> jsval \<Rightarrow> reply" where
  "replies status options =
     Callback JNull
       (Some \<lparr>statusCode = status,
              headers = JObj [(''content-type'', JStr ''text/plain'')]\<rparr>)
       (JStr ''pong'')"

definition http_step :: step where
  "http_step =
     \<lparr>type = JStr ''HTTP'',
      request = JObj [(''url'', JStr ''https://api.test/ping'')],
      compiled = JObj [(''url'', JStr ''https://api.test/ping'')],
      response = Map.empty\<rparr>"

definition ftp_step :: step where
  "ftp_step =
     \<lparr>type = JStr ''FTP'',
      request = JObj [(''url'', JStr ''ftp://files.test/{{name}}'')],
      compiled = JUndefined,
      response = [''status'' \<mapsto> JNum 200]\<rparr>"

definition oauth_request :: jsval where
  "oauth_request =
     JObj [(''action'', JStr ''authorize''),
           (''url'', JStr ''https://idp.test/authorize''),
           (''data'', JObj [(''browser'', JStr ''chrome''),
                            (''redirect_uri'', JStr ''https://cb'')])]"

definition oauth_step :: step where
  "oauth_step =
     \<lparr>type = JStr ''OAUTH'', request = oauth_request, compiled = oauth_request,
      response = Map.empty\<rparr>"

definition flat_oauth_request :: jsval where
  "flat_oauth_request =
     JObj [(''action'', JStr ''authorize''),
           (''url'', JStr ''https://idp.test/authorize''),
           (''browser'', JStr ''chrome''),
           (''redirect_uri'', JStr ''https://cb'')]"

definition flat_oauth_step :: step where
  "flat_oauth_step =
     \<lparr>type = JStr ''OAUTH'', request = flat_oauth_request, compiled = flat_oauth_request,
      response = Map.empty\<rparr>"

definition failed_before :: step where
  "failed_before = http_step\<lparr>response := [''error'' \<mapsto> JBool True, ''completed'' \<mapsto> JBool True]\<rparr>"

section \<open>Properties of the template compiler\<close>

lemma sequence_sum_map_Inr_id: "sequence_sum (map Inr xs) = Inr xs"
  by (induction xs) auto

lemma sequence_sum_InrD: "sequence_sum rs = Inr ys \<Longrightarrow> rs = map Inr ys"
  by (induction rs arbitrary: ys rule: sequence_sum.induct) (auto split: sum.splits)

lemma sequence_sum_Inr: "sequence_sum rs = Inr ys \<longleftrightarrow> rs = map Inr ys"
  using sequence_sum_InrD sequence_sum_map_Inr_id by blast

lemma sequence_sum_map_Inr:
  "sequence_sum (map f xs) = Inr ys \<longleftrightarrow> list_all2 (\<lambda>x y. f x = Inr y) xs ys"
proof -
  have "map f xs = map Inr ys \<longleftrightarrow> list_all2 (=) (map f xs) (map Inr ys)"
    by (simp add: list.rel_eq)
  then show ?thesis
    by (simp add: sequence_sum_Inr list.rel_map)
qed

lemma map_sum_id_Inr: "map_sum id g r = Inr y \<longleftrightarrow> (\<exists>x. r = Inr x \<and> y = g x)"
  by (cases r) auto

lemma loop_arr_Inr:
  "loop hb ctx (JArr xs) = Inr w \<longleftrightarrow>
     (\<exists>ys. w = JArr ys \<and> list_all2 (\<lambda>x y. loop hb ctx x = Inr y) xs ys)"
  by (auto simp: map_sum_id_Inr sequence_sum_map_Inr)

lemma loop_obj_Inr:
  "loop hb ctx (JObj kvs) = Inr w \<longleftrightarrow>
     (\<exists>kvs'. w = JObj kvs' \<and>
        list_all2 (\<lambda>kv kv'. fst kv' = fst kv \<and> loop hb ctx (snd kv) = Inr (snd kv')) kvs kvs')"
proof -
  have eq: "(\<lambda>kv kv'. (case kv of (k, v) \<Rightarrow> map_sum id (Pair k) (loop hb ctx v)) = Inr kv')
          = (\<lambda>kv kv'. fst kv' = fst kv \<and> loop hb ctx (snd kv) = Inr (snd kv'))"
    by (auto simp: fun_eq_iff map_sum_id_Inr)
  show ?thesis
    by (simp add: map_sum_id_Inr sequence_sum_map_Inr eq) blast
qed

lemma loop_same_shape: "loop hb ctx v = Inr w \<Longrightarrow> same_shape v w"
proof (induction hb ctx v arbitrary: w rule: loop.induct)
  case (1 hb ctx xs)
  from "1.prems"[unfolded loop_arr_Inr] obtain ys where w: "w = JArr ys"
    and all: "list_all2 (\<lambda>x y. loop hb ctx x = Inr y) xs ys"
    by blast
  have "list_all2 same_shape xs ys"
    using all "1.IH" by (auto simp: list_all2_conv_all_nth)
  with w show ?case by simp
next
  case (2 hb ctx kvs)
  from "2.prems"[unfolded loop_obj_Inr] obtain kvs' where w: "w = JObj kvs'"
    and all: "list_all2 (\<lambda>kv kv'. fst kv' = fst kv \<and> loop hb ctx (snd kv) = Inr (snd kv')) kvs kvs'"
    by blast
  have keys: "map fst kvs = map fst kvs'"
    using all by (auto simp: list_all2_conv_all_nth intro: nth_equalityI)
  have "list_all2 same_shape (map snd kvs) (map snd kvs')"
    using all "2.IH" 
    by (auto simp: list_all2_conv_all_nth) (metis nth_mem prod.collapse)
  with w keys show ?case by simp
qed (auto simp: map_sum_id_Inr)


lemma sequence_sum_map_Inl:
  "sequence_sum (map f xs) = Inl e \<Longrightarrow> \<exists>x \<in> set xs. f x = Inl e"
proof (induction xs)
  case Nil
  then show ?case by simp
next
  case (Cons x xs)
  then show ?case by (cases "f x") (auto split: sum.splits)
qed

lemma map_sum_id_Inl: "map_sum id g r = Inl e \<longleftrightarrow> r = Inl e"
  by (cases r) auto

lemma loop_Inl_leaf:
  "loop hb ctx v = Inl e \<Longrightarrow> \<exists>s \<in> set (string_leaves v). hb s \<lparr>noEscape = True\<rparr> ctx = Inl e"
proof (induction hb ctx v rule: loop.induct)
  case (1 hb ctx xs)
  from "1.prems" have "sequence_sum (map (loop hb ctx) xs) = Inl e"
    by (simp add: map_sum_id_Inl)
  from sequence_sum_map_Inl[OF this]
  obtain x where x: "x \<in> set xs" and l: "loop hb ctx x = Inl e"
    by blast
  from "1.IH"[OF x l] obtain s where "s \<in> set (string_leaves x)"
    and "hb s \<lparr>noEscape = True\<rparr> ctx = Inl e"
    by blast
  with x show ?case by auto
next
  case (2 hb ctx kvs)
  from "2.prems"
  have "sequence_sum (map (\<lambda>(k, v). map_sum id (Pair k) (loop hb ctx v)) kvs) = Inl e"
    by (simp add: map_sum_id_Inl)
  from sequence_sum_map_Inl[OF this]
  obtain kv where kv: "kv \<in> set kvs"
    and f: "(case kv of (k, v) \<Rightarrow> map_sum id (Pair k) (loop hb ctx v)) = Inl e"
    by blast
  obtain k v where kv_eq: "kv = (k, v)" by (cases kv)
  from f kv_eq have l: "loop hb ctx v = Inl e"
    by (simp add: map_sum_id_Inl)
  from "2.IH"[OF kv kv_eq[symmetric] l] obtain s where "s \<in> set (string_leaves v)"
    and "hb s \<lparr>noEscape = True\<rparr> ctx = Inl e"
    by blast
  with kv kv_eq show ?case by auto
next
  case (3 hb ctx s)
  then show ?case by (simp add: map_sum_id_Inl)
qed simp_all

lemma loop_total:
  assumes "\<forall>s \<in> set (string_leaves v). \<exists>r. hb s \<lparr>noEscape = True\<rparr> ctx = Inr r"
  shows "\<exists>w. loop hb ctx v = Inr w"
proof (cases "loop hb ctx v")
  case (Inl e)
  from loop_Inl_leaf[OF this]
  obtain s where "s \<in> set (string_leaves v)" "hb s \<lparr>noEscape = True\<rparr> ctx = Inl e"
    by blast
  with assms show ?thesis by auto
next
  case (Inr w)
  then show ?thesis by blast
qed




lemma loop_marker_free:
  assumes eng: "\<forall>s. \<not> has_marker s \<longrightarrow> hb s \<lparr>noEscape = True\<rparr> ctx = Inr s"
    and free: "\<forall>s \<in> set (string_leaves v). \<not> has_marker s"
  shows "loop hb ctx v = Inr v"
  using assms
proof (induction hb ctx v rule: loop.induct)
  case (1 hb ctx xs)
  have "loop hb ctx x = Inr x" if "x \<in> set xs" for x
    using "1.IH"[OF that "1.prems"(1)] "1.prems"(2) that by auto
  then have "list_all2 (\<lambda>x y. loop hb ctx x = Inr y) xs xs"
    by (simp add: list_all2_same)
  then show ?case unfolding loop_arr_Inr by blast
next
  case (2 hb ctx kvs)
  have "loop hb ctx (snd kv) = Inr (snd kv)" if "kv \<in> set kvs" for kv
  proof -
    have "\<forall>s \<in> set (string_leaves (snd kv)). \<not> has_marker s"
      using "2.prems"(2) that by (cases kv) auto
    with "2.IH"[of kv "fst kv" "snd kv"] "2.prems"(1) that show ?thesis by simp
  qed
  then have "list_all2 (\<lambda>kv kv'. fst kv' = fst kv \<and> loop hb ctx (snd kv) = Inr (snd kv')) kvs kvs"
    by (simp add: list_all2_same)
  then show ?case unfolding loop_obj_Inr by blast
next
  case (3 hb ctx s)
  then show ?case by simp
qed simp_all

lemma ref_scan_no_marker: "\<not> has_marker s \<Longrightarrow> ref_scan opts ctx None s = Inr s"
  by (induction s rule: has_marker.induct) auto

lemma ref_handlebars_verbatim: "\<not> has_marker s \<Longrightarrow> ref_handlebars s opts ctx = Inr s"
  by (simp add: ref_handlebars_def ref_scan_no_marker)

lemma ref_render_name:
  "ref_handlebars ''Hello {{name}}'' \<lparr>noEscape = True\<rparr> ada_context = Inr ''Hello Ada''"
  by (simp add: ref_handlebars_def ref_variable_def trim_spaces_def is_name_def ada_context_def)

lemma ref_compile_greeting:
  "compile (ref_env ada_context refused idle_driver) greeting = Inr greeting_compiled"
  by (simp add: compile_def ref_env_def greeting_def greeting_compiled_def ref_render_name)

lemma compile_same_shape: "compile env v = Inr w \<Longrightarrow> same_shape v w"
  using loop_same_shape by (simp add: compile_def)

lemma compile_error_from_leaf:
  "compile env v = Inl e \<Longrightarrow>
     \<exists>s \<in> set (string_leaves v). handlebars env s \<lparr>noEscape = True\<rparr> (data_context env) = Inl e"
  using loop_Inl_leaf by (simp add: compile_def)

text \<open>
  Claim C4. When the template engine renders every string leaf of the input, \<open>compile\<close>
  returns a value with the container structure of its input: arrays keep their length
  and the order of their elements, objects keep their keys, and every leaf that is not a
  string is returned as it is. (By \<open>compile_same_shape\<close> whatever \<open>compile\<close> returns has
  that structure; by \<open>compile_error_from_leaf\<close> it raises only what the engine raises.)
\<close>

theorem compile_preserves_structure:
  assumes "\<forall>s \<in> set (string_leaves v).
             \<exists>r. handlebars env s \<lparr>noEscape = True\<rparr> (data_context env) = Inr r"
  shows "\<exists>w. compile env v = Inr w \<and> same_shape v w"
proof -
  from loop_total[of v "handlebars env" "data_context env", OF assms]
  obtain w where "compile env v = Inr w"
    by (auto simp: compile_def)
  with compile_same_shape show ?thesis by blast
qed

theorem compile_preserves_structure_witness:
  "compile (ref_env ada_context refused idle_driver) nested_request =
     Inr (JObj [(''url'', JStr ''https://api.test/Ada''),
                (''retries'', JNum 3),
                (''tags'', JArr [JStr ''Ada'', JBool True, JNull, JArr []]),
                (''headers'', JObj [(''X-User'', JStr ''Ada'')])])
   \<and> same_shape nested_request
        (JObj [(''url'', JStr ''https://api.test/Ada''),
               (''retries'', JNum 3),
               (''tags'', JArr [JStr ''Ada'', JBool True, JNull, JArr []]),
               (''headers'', JObj [(''X-User'', JStr ''Ada'')])])"
proof -
  let ?env = "ref_env ada_context refused idle_driver"
  let ?w = "JObj [(''url'', JStr ''https://api.test/Ada''),
                (''retries'', JNum 3),
                (''tags'', JArr [JStr ''Ada'', JBool True, JNull, JArr []]),
                (''headers'', JObj [(''X-User'', JStr ''Ada'')])]"
  have c: "compile ?env nested_request = Inr ?w"
    by (simp add: compile_def ref_env_def nested_request_def ref_handlebars_def
        ref_variable_def trim_spaces_def is_name_def ada_context_def)
  have "\<forall>s \<in> set (string_leaves nested_request).
          \<exists>r. handlebars ?env s \<lparr>noEscape = True\<rparr> (data_context ?env) = Inr r"
    by (simp add: ref_env_def nested_request_def ref_handlebars_def
        ref_variable_def trim_spaces_def is_name_def ada_context_def)
  from compile_preserves_structure[OF this] c
  have "same_shape nested_request ?w" by simp
  with c show ?thesis by simp
qed



text \<open>
  Claim C8. For an engine that renders text without a marker as it is, compiling a value
  whose strings hold no marker returns that value, so that compiling the output again
  changes nothing.
\<close>

theorem compile_idempotent_without_markers:
  assumes "\<forall>s. \<not> has_marker s \<longrightarrow>
             handlebars env s \<lparr>noEscape = True\<rparr> (data_context env) = Inr s"
    and "marker_free v"
  shows "compile env v = Inr v \<and>
         (case compile env v of Inl e \<Rightarrow> Inl e | Inr w \<Rightarrow> compile env w) = compile env v"
proof -
  from assms(2) have "\<forall>s \<in> set (string_leaves v). \<not> has_marker s"
    by (simp add: marker_free_def list_all_iff)
  from loop_marker_free[of "handlebars env" "data_context env" v, OF assms(1) this]
  have "compile env v = Inr v"
    by (simp add: compile_def)
  then show ?thesis by simp
qed

theorem compile_idempotent_without_markers_witness:
  "compile (ref_env ada_context refused idle_driver) greeting = Inr greeting_compiled
   \<and> marker_free greeting_compiled
   \<and> compile (ref_env ada_context refused idle_driver) greeting_compiled = Inr greeting_compiled"
proof -
  let ?env = "ref_env ada_context refused idle_driver"
  have e: "\<forall>s. \<not> has_marker s \<longrightarrow>
             handlebars ?env s \<lparr>noEscape = True\<rparr> (data_context ?env) = Inr s"
    by (simp add: ref_env_def ref_handlebars_verbatim)
  have m: "marker_free greeting_compiled"
    by (simp add: marker_free_def greeting_compiled_def)
  from compile_idempotent_without_markers[OF e m]
  have "compile ?env greeting_compiled = Inr greeting_compiled" by simp
  with m ref_compile_greeting show ?thesis
    by simp
qed

section \<open>Properties of the HTTP runner and of the dispatcher\<close>

lemma http_no_response:
  "http_request env (compiled step) = Callback err None body \<Longrightarrow>
     http env step eff = (Pending, step, eff\<lparr>uncaught := uncaught eff @ [TypeError]\<rparr>)"
  by (simp add: http_def http_callback_def)

text \<open>
  Claim C1. When the transport reports an error and hands over no response object, the
  callback reads \<^verbatim>\<open>response.statusCode\<close> before it looks at \<^verbatim>\<open>error\<close> and raises a
  \<^verbatim>\<open>TypeError\<close>: the response record is left as it was and the promise is never settled.
\<close>

theorem http_transport_failure_never_resolves:
  "http (ref_env ada_context refused idle_driver) http_step no_effects =
     (Pending, http_step, no_effects\<lparr>uncaught := [TypeError]\<rparr>)"
  by (simp add: http_def http_callback_def ref_env_def refused_def no_effects_def)

text \<open>
  Claim C2, as stated, fails: a step whose response record holds a true \<^verbatim>\<open>error\<close> before
  the run and whose transport hands over a response with status 200 and no error ends
  with \<^verbatim>\<open>error\<close> true, not falsy.
\<close>

theorem http_response_received_counterexample:
  "http_request (ref_env ada_context (replies 200) idle_driver) (compiled failed_before)
     = Callback JNull
         (Some \<lparr>statusCode = 200, headers = JObj [(''content-type'', JStr ''text/plain'')]\<rparr>)
         (JStr ''pong'')
   \<and> fst (http (ref_env ada_context (replies 200) idle_driver) failed_before no_effects)
       = Resolved (response (fst (snd (http (ref_env ada_context (replies 200) idle_driver)
                                         failed_before no_effects))))
   \<and> response (fst (snd (http (ref_env ada_context (replies 200) idle_driver)
                          failed_before no_effects))) ''status'' = Some (JNum 200)
   \<and> response (fst (snd (http (ref_env ada_context (replies 200) idle_driver)
                          failed_before no_effects))) ''error'' = Some (JBool True)
   \<and> truthy (JBool True)"
  by (simp add: http_def http_callback_def set_response_def ref_env_def replies_def
      failed_before_def http_step_def)

text \<open>
  Claim C2, as amended. When the transport hands over a response object, the promise is
  resolved with the response record, in which \<^verbatim>\<open>completed\<close> is true and \<^verbatim>\<open>status\<close>, \<^verbatim>\<open>headers\<close>
  and \<^verbatim>\<open>body\<close> are those received; \<^verbatim>\<open>error\<close> is set to true when the error argument is
  truthy or the status is not 200, and is not written otherwise, so that a status of 200
  without an error leaves \<^verbatim>\<open>error\<close> as it was before the run.
\<close>

theorem http_response_received:
  assumes "http_request env (compiled step) = Callback err (Some r) body"
  shows "\<exists>step'. http env step eff = (Resolved (response step'), step', eff)
           \<and> response step' ''completed'' = Some (JBool True)
           \<and> response step' ''status'' = Some (JNum (statusCode r))
           \<and> response step' ''headers'' = Some (headers r)
           \<and> response step' ''body'' = Some body
           \<and> (truthy err \<or> statusCode r \<noteq> 200
                \<longrightarrow> response step' ''error'' = Some (JBool True))
           \<and> (\<not> truthy err \<and> statusCode r = 200
                \<longrightarrow> response step' ''error'' = response step ''error'')"
  using assms by (simp add: http_def http_callback_def set_response_def Let_def)

theorem http_response_received_witness:
  "http_request (ref_env ada_context (replies 200) idle_driver) (compiled http_step)
     = Callback JNull
         (Some \<lparr>statusCode = 200, headers = JObj [(''content-type'', JStr ''text/plain'')]\<rparr>)
         (JStr ''pong'')
   \<and> \<not> truthy JNull
   \<and> (\<exists>step'. http (ref_env ada_context (replies 200) idle_driver) http_step no_effects
                  = (Resolved (response step'), step', no_effects)
          \<and> response step' ''completed'' = Some (JBool True)
          \<and> response step' ''status'' = Some (JNum 200)
          \<and> response step' ''headers'' = Some (JObj [(''content-type'', JStr ''text/plain'')])
          \<and> response step' ''body'' = Some (JStr ''pong'')
          \<and> response step' ''error'' = None)"
proof -
  let ?env = "ref_env ada_context (replies 200) idle_driver"
  let ?r = "\<lparr>statusCode = 200, headers = JObj [(''content-type'', JStr ''text/plain'')]\<rparr>"
  have a: "http_request ?env (compiled http_step) = Callback JNull (Some ?r) (JStr ''pong'')"
    by (simp add: ref_env_def replies_def)
  have b: "\<not> truthy JNull" by simp
  have c: "response http_step ''error'' = None" by (simp add: http_step_def)
  from http_response_received[OF a, of no_effects] c a b show ?thesis
    by simp
qed

lemma http_not_found:
  "\<exists>step'. http (ref_env ada_context (replies 404) idle_driver) http_step no_effects
              = (Resolved (response step'), step', no_effects)
      \<and> response step' ''completed'' = Some (JBool True)
      \<and> response step' ''status'' = Some (JNum 404)
      \<and> response step' ''error'' = Some (JBool True)"
  by (simp add: http_def http_callback_def set_response_def ref_env_def replies_def)

text \<open>
  Claim C9. The HTTP runner leaves the \<^verbatim>\<open>error\<close> field as it was or sets it to true:
  an \<^verbatim>\<open>error\<close> that is true before a run is true after it, whatever the transport does.
\<close>

theorem http_never_clears_error:
  assumes "http env step eff = (out, step', eff')"
  shows "(response step' ''error'' = response step ''error''
            \<or> response step' ''error'' = Some (JBool True))
         \<and> (response step ''error'' = Some (JBool True)
              \<longrightarrow> response step' ''error'' = Some (JBool True))"
proof (cases "http_request env (compiled step)")
  case (SyncThrow e)
  with assms show ?thesis by (auto simp: http_def)
next
  case (Callback err res body)
  show ?thesis
  proof (cases res)
    case None
    with Callback assms show ?thesis by (auto simp: http_def http_callback_def)
  next
    case (Some r)
    with Callback assms show ?thesis
      by (auto simp: http_def http_callback_def set_response_def Let_def split: if_splits)
  qed
qed


theorem http_never_clears_error_witness:
  "response failed_before ''error'' = Some (JBool True)
   \<and> fst (http (ref_env ada_context (replies 200) idle_driver) failed_before no_effects)
       = Resolved (response (fst (snd (http (ref_env ada_context (replies 200) idle_driver)
                                         failed_before no_effects))))
   \<and> response (fst (snd (http (ref_env ada_context (replies 200) idle_driver)
                          failed_before no_effects))) ''status'' = Some (JNum 200)
   \<and> response (fst (snd (http (ref_env ada_context (replies 200) idle_driver)
                          failed_before no_effects))) ''error'' = Some (JBool True)"
proof -
  let ?run = "http (ref_env ada_context (replies 200) idle_driver) failed_before no_effects"
  have a: "response failed_before ''error'' = Some (JBool True)"
    by (simp add: failed_before_def)
  have h: "?run = (fst ?run, fst (snd ?run), snd (snd ?run))"
    by simp
  have r: "fst ?run = Resolved (response (fst (snd ?run)))"
    and s: "response (fst (snd ?run)) ''status'' = Some (JNum 200)"
    by (simp_all add: http_def http_callback_def set_response_def ref_env_def replies_def)
  from http_never_clears_error[OF h] a
  have "response (fst (snd ?run)) ''error'' = Some (JBool True)"
    by blast
  with a r s show ?thesis by blast
qed

text \<open>
  Claim C5. For a step whose type is neither \<^verbatim>\<open>HTTP\<close> nor \<^verbatim>\<open>OAUTH\<close> and whose request the
  template engine compiles, the dispatcher returns a promise rejected with the error
  \<^verbatim>\<open>Unknown request type\<close>, and the response record is the one the step had.
\<close>

theorem unknown_step_type:
  assumes "type step \<noteq> JStr ''HTTP''" and "type step \<noteq> JStr ''OAUTH''"
    and "compile env (request step) = Inr c"
  shows "\<exists>step'. exports_step env step eff =
            (Rejected (Error (''Unknown request type: '' @ js_to_string (type step))),
             step', eff)
          \<and> response step' = response step \<and> compiled step' = c"
  using assms by (simp add: exports_step_def)

theorem unknown_step_type_witness:
  "exports_step (ref_env ada_context refused idle_driver) ftp_step no_effects
        = (Rejected (Error ''Unknown request type: FTP''),
           ftp_step\<lparr>compiled := JObj [(''url'', JStr ''ftp://files.test/Ada'')]\<rparr>, no_effects)
   \<and> response (ftp_step\<lparr>compiled := JObj [(''url'', JStr ''ftp://files.test/Ada'')]\<rparr>)
        = response ftp_step"
proof -
  let ?env = "ref_env ada_context refused idle_driver"
  have a: "type ftp_step \<noteq> JStr ''HTTP''" and b: "type ftp_step \<noteq> JStr ''OAUTH''"
    by (simp_all add: ftp_step_def)
  have c: "compile ?env (request ftp_step) = Inr (JObj [(''url'', JStr ''ftp://files.test/Ada'')])"
    by (simp add: compile_def ref_env_def ftp_step_def ref_handlebars_def ref_variable_def
        trim_spaces_def is_name_def ada_context_def)
  have t: "js_to_string (type ftp_step) = ''FTP''" by (simp add: ftp_step_def)
  from unknown_step_type[OF a b c, of no_effects] obtain step' where
    "exports_step ?env ftp_step no_effects = (Rejected (Error ''Unknown request type: FTP''),
       step', no_effects)"
    by (auto simp: t)
  moreover have "snd (exports_step ?env ftp_step no_effects) =
      (ftp_step\<lparr>compiled := JObj [(''url'', JStr ''ftp://files.test/Ada'')]\<rparr>, no_effects)"
    using a b c by (simp add: exports_step_def)
  ultimately show ?thesis by simp
qed

lemma dispatch_unknown_keeps_response:
  assumes "type step \<noteq> JStr ''HTTP''" and "type step \<noteq> JStr ''OAUTH''"
  shows "response (fst (snd (exports_step env step eff))) = response step"
  using assms by (cases "compile env (request step)") (simp_all add: exports_step_def)

lemma dispatch_template_error:
  "compile env (request step) = Inl e \<Longrightarrow> exports_step env step eff = (Threw e, step, eff)"
  by (simp add: exports_step_def)


section \<open>Properties of the OAuth runner\<close>

lemma wait_until_match:
  assumes "j < n" and "cond (ts (k + j)) = Inr True"
    and "\<forall>i<j. cond (ts (k + i)) = Inr False"
  shows "wait_until cond ts n k = (None, Suc (k + j))"
  using assms
proof (induction n arbitrary: k j)
  case 0
  then show ?case by simp
next
  case (Suc n)
  show ?case
  proof (cases j)
    case 0
    with Suc.prems show ?thesis by simp
  next
    case (Suc j')
    from Suc.prems(3) Suc have first: "cond (ts k) = Inr False"
      by (metis add.right_neutral zero_less_Suc)
    have "wait_until cond ts n (Suc k) = (None, Suc (Suc k + j'))"
    proof (rule Suc.IH)
      show "j' < n" using Suc.prems(1) Suc by simp
      show "cond (ts (Suc k + j')) = Inr True" using Suc.prems(2) Suc by simp
      show "\<forall>i<j'. cond (ts (Suc k + i)) = Inr False"
      proof (intro allI impI)
        fix i assume "i < j'"
        then have "Suc i < j" using Suc by simp
        with Suc.prems(3) have "cond (ts (k + Suc i)) = Inr False" by blast
        then show "cond (ts (Suc k + i)) = Inr False" by simp
      qed
    qed
    with first Suc show ?thesis by simp
  qed
qed

lemma wait_until_timeout:
  assumes "\<forall>i<n. cond (ts (k + i)) = Inr False"
  shows "wait_until cond ts n k = (Some TimeoutError, k + n)"
  using assms
proof (induction n arbitrary: k)
  case 0
  then show ?case by simp
next
  case (Suc n)
  from Suc.prems have first: "cond (ts k) = Inr False"
    by (metis add.right_neutral zero_less_Suc)
  have "wait_until cond ts n (Suc k) = (Some TimeoutError, Suc k + n)"
  proof (rule Suc.IH, intro allI impI)
    fix i assume "i < n"
    then have "Suc i < Suc n" by simp
    with Suc.prems have "cond (ts (k + Suc i)) = Inr False" by blast
    then show "cond (ts (Suc k + i)) = Inr False" by simp
  qed
  with first show ?case by simp
qed

lemma split_on_first:
  "(case split_on c s of [] \<Rightarrow> JUndefined | t # _ \<Rightarrow> JStr t) = JStr (takeWhile (\<lambda>x. x \<noteq> c) s)"
proof (induction s)
  case Nil
  then show ?case by simp
next
  case (Cons x s)
  then show ?case by (cases "split_on c s") auto
qed

lemma driver_keeps_reads:
  "driver env b eff = Inr eff1 \<Longrightarrow>
     title_reads eff1 = title_reads eff \<and> quits eff1 = quits eff \<and> uncaught eff1 = uncaught eff
     \<and> visited eff1 = visited eff"
  by (auto simp: driver_def Let_def split: if_splits)

lemma oauthAuthorize_flow:
  assumes "get_prop (compiled step) ''data'' = Inr d"
    and "get_prop d ''browser'' = Inr b"
    and "driver env b eff = Inr eff1"
    and "get_prop (compiled step) ''url'' = Inr u"
    and "url_parse env u False = Inr endpoint"
  shows "oauthAuthorize env step eff = authorize_flow env d endpoint step eff1"
  using assms by (simp add: oauthAuthorize_def)

lemma title_matches_marker:
  "get_prop d ''redirect_uri'' = Inr marker \<Longrightarrow>
     title_matches d t = Inr (prefix (js_to_string marker) t)"
  by (simp add: title_matches_def)

lemma after_wait_code:
  assumes "url_parse env (JStr (takeWhile (\<lambda>c. c \<noteq> CHR '' '') (titles (webdriver env) k))) True
             = Inr parsed"
    and "get_prop (query parsed) ''code'' = Inr code"
  shows "after_wait env step eff k =
           (Resolved ((response step)(''completed'' \<mapsto> JBool True, ''code'' \<mapsto> code)),
            step\<lparr>response := (response step)(''completed'' \<mapsto> JBool True, ''code'' \<mapsto> code)\<rparr>,
            eff\<lparr>title_reads := Suc k, quits := Suc (quits eff)\<rparr>)"
  using assms
  by (simp add: after_wait_def extract_code_def split_on_first set_response_def Let_def)

text \<open>
  Claim C6. When the setup of the flow succeeds, navigation succeeds and a poll finds a
  title that begins with the marker, the promise is resolved with the response record, in
  which \<^verbatim>\<open>completed\<close> is true and \<^verbatim>\<open>code\<close> is the \<^verbatim>\<open>code\<close> query parameter of the URL that the
  text before the first space of the title (read again after the wait) parses to, which
  is \<^verbatim>\<open>undefined\<close> when the URL has no such parameter; the session is quit once.
\<close>

theorem oauth_code_extracted:
  assumes "get_prop (compiled step) ''data'' = Inr d"
    and "get_prop d ''browser'' = Inr b"
    and "driver env b eff = Inr eff1"
    and "get_prop (compiled step) ''url'' = Inr u"
    and "url_parse env u False = Inr endpoint"
    and "nav_error (webdriver env) = None"
    and "get_prop d ''redirect_uri'' = Inr marker"
    and "j < polls_within (webdriver env) 60000"
    and "\<forall>i<j. \<not> prefix (js_to_string marker) (titles (webdriver env) (title_reads eff + i))"
    and "prefix (js_to_string marker) (titles (webdriver env) (title_reads eff + j))"
    and "url_parse env
           (JStr (takeWhile (\<lambda>c. c \<noteq> CHR '' '')
                    (titles (webdriver env) (Suc (title_reads eff + j))))) True = Inr parsed"
    and "get_prop (query parsed) ''code'' = Inr code"
  shows "\<exists>step' eff'. oauthAuthorize env step eff = (Resolved (response step'), step', eff')
           \<and> response step' ''completed'' = Some (JBool True)
           \<and> response step' ''code'' = Some code
           \<and> quits eff' = Suc (quits eff)"
proof -
  let ?wd = "webdriver env"
  from driver_keeps_reads[OF assms(3)]
  have k: "title_reads eff1 = title_reads eff" and q: "quits eff1 = quits eff"
    by simp_all
  have w: "wait_until (title_matches d) (titles ?wd) (polls_within ?wd 60000) (title_reads eff)
             = (None, Suc (title_reads eff + j))"
    using assms(8,9,10) by (intro wait_until_match) (simp_all add: title_matches_marker[OF assms(7)])
  have "authorize_flow env d endpoint step eff1 =
          after_wait env step
            (eff1\<lparr>visited := visited eff1 @ [url_format env endpoint],
                  title_reads := Suc (title_reads eff + j)\<rparr>)
            (Suc (title_reads eff + j))"
    using assms(6) w k by (simp add: authorize_flow_def Let_def)
  with oauthAuthorize_flow[OF assms(1-5)] after_wait_code[OF assms(11,12)] q
  show ?thesis by simp
qed

theorem oauth_code_extracted_witness:
  "(case oauthAuthorize (ref_env ada_context refused redirecting_driver) oauth_step no_effects of
      (Resolved r, step', eff') \<Rightarrow> (r ''completed'', r ''code'', quits eff')
    | _ \<Rightarrow> (None, None, 0))
   = (Some (JBool True), Some (JStr ''abc123''), 1)"
proof -
  let ?env = "ref_env ada_context refused redirecting_driver"
  let ?eff1 = "no_effects\<lparr>sessions :=
      [\<lparr>browser_name = JStr ''chrome'',
        chrome_arguments = [''user-data-dir=/home/user/.kapit/chrome-profile'']\<rparr>]\<rparr>"
  let ?d = "JObj [(''browser'', JStr ''chrome''), (''redirect_uri'', JStr ''https://cb'')]"
  have a1: "get_prop (compiled oauth_step) ''data'' = Inr ?d"
    by (simp add: oauth_step_def oauth_request_def)
  have a2: "get_prop ?d ''browser'' = Inr (JStr ''chrome'')" by simp
  have a3: "driver ?env (JStr ''chrome'') no_effects = Inr ?eff1"
    by (simp add: driver_def ref_env_def no_effects_def)
  have a4: "get_prop (compiled oauth_step) ''url'' = Inr (JStr ''https://idp.test/authorize'')"
    by (simp add: oauth_step_def oauth_request_def)
  have a5: "url_parse ?env (JStr ''https://idp.test/authorize'') False
              = Inr \<lparr>href = ''https://idp.test/authorize'', query = JNull\<rparr>"
    by (simp add: ref_env_def)
  have a6: "nav_error (webdriver ?env) = None"
    by (simp add: ref_env_def redirecting_driver_def)
  have a7: "get_prop ?d ''redirect_uri'' = Inr (JStr ''https://cb'')" by simp
  have a8: "1 < polls_within (webdriver ?env) 60000"
    by (simp add: ref_env_def redirecting_driver_def)
  have a9: "\<forall>i<1. \<not> prefix (js_to_string (JStr ''https://cb''))
                       (titles (webdriver ?env) (title_reads no_effects + i))"
    by (simp add: ref_env_def redirecting_driver_def no_effects_def)
  have a10: "prefix (js_to_string (JStr ''https://cb''))
               (titles (webdriver ?env) (title_reads no_effects + 1))"
    by (simp add: ref_env_def redirecting_driver_def no_effects_def)
  have t: "takeWhile (\<lambda>c. c \<noteq> CHR '' '')
              (titles (webdriver ?env) (Suc (title_reads no_effects + 1))) = ''https://cb?code=abc123''"
    by (simp add: ref_env_def redirecting_driver_def no_effects_def)
  have a11: "url_parse ?env
               (JStr (takeWhile (\<lambda>c. c \<noteq> CHR '' '')
                        (titles (webdriver ?env) (Suc (title_reads no_effects + 1))))) True
             = Inr \<lparr>href = ''https://cb?code=abc123'',
                    query = JObj [(''code'', JStr ''abc123'')]\<rparr>"
    unfolding t by (simp add: ref_env_def ref_query_def)
  have a12: "get_prop (query \<lparr>href = ''https://cb?code=abc123'',
                    query = JObj [(''code'', JStr ''abc123'')]\<rparr>) ''code'' = Inr (JStr ''abc123'')"
    by simp
  from oauth_code_extracted[OF a1 a2 a3 a4 a5 a6 a7 a8 a9 a10 a11 a12]
  obtain step' eff' where
    r: "oauthAuthorize ?env oauth_step no_effects = (Resolved (response step'), step', eff')"
    and c: "response step' ''completed'' = Some (JBool True)"
    and d: "response step' ''code'' = Some (JStr ''abc123'')"
    and q: "quits eff' = Suc (quits no_effects)"
    by blast
  from r c d q show ?thesis
    by (simp add: no_effects_def)
qed

lemma after_wait_outcome:
  assumes "after_wait env step eff k = (out, step', eff')"
  shows "(\<forall>e. out \<noteq> Rejected e) \<and> set (uncaught eff) \<subseteq> set (uncaught eff')"
  using assms
  by (auto simp: after_wait_def Let_def split: sum.splits if_splits)

lemma authorize_flow_timeout:
  assumes "nav_error (webdriver env) = None"
    and "get_prop d ''redirect_uri'' = Inr marker"
    and "\<forall>i < polls_within (webdriver env) 60000.
           \<not> prefix (js_to_string marker) (titles (webdriver env) (title_reads eff + i))"
  shows "authorize_flow env d endpoint step eff =
           (if discards_queued (webdriver env)
            then (Pending, step,
                  eff\<lparr>visited := visited eff @ [url_format env endpoint],
                      title_reads := title_reads eff + polls_within (webdriver env) 60000,
                      uncaught := uncaught eff @ [TimeoutError]\<rparr>)
            else after_wait env step
                  (eff\<lparr>visited := visited eff @ [url_format env endpoint],
                      title_reads := title_reads eff + polls_within (webdriver env) 60000,
                      uncaught := uncaught eff @ [TimeoutError]\<rparr>)
                  (title_reads eff + polls_within (webdriver env) 60000))"
proof -
  let ?wd = "webdriver env"
  let ?n = "polls_within ?wd 60000"
  have w: "wait_until (title_matches d) (titles ?wd) ?n (title_reads eff)
             = (Some TimeoutError, title_reads eff + ?n)"
    using assms(3) by (intro wait_until_timeout) (simp add: title_matches_marker[OF assms(2)])
  show ?thesis
    using assms(1) w by (simp add: authorize_flow_def Let_def)
qed

text \<open>
  Claim C3, as amended. When the setup of the flow and navigation succeed and no poll
  within the 60000 milliseconds finds a title that begins with the marker, the wait
  fails with a timeout error that stays inside the driver: the promise that the flow
  returned is not rejected. With a driver that discards the commands queued behind the
  failed wait, no field of the response record is written, so no code is extracted.
\<close>

theorem oauth_timeout_not_rejected:
  assumes "get_prop (compiled step) ''data'' = Inr d"
    and "get_prop d ''browser'' = Inr b"
    and "driver env b eff = Inr eff1"
    and "get_prop (compiled step) ''url'' = Inr u"
    and "url_parse env u False = Inr endpoint"
    and "nav_error (webdriver env) = None"
    and "get_prop d ''redirect_uri'' = Inr marker"
    and "\<forall>i < polls_within (webdriver env) 60000.
           \<not> prefix (js_to_string marker) (titles (webdriver env) (title_reads eff + i))"
  shows "\<exists>out step' eff'. oauthAuthorize env step eff = (out, step', eff')
           \<and> (\<forall>e. out \<noteq> Rejected e)
           \<and> TimeoutError \<in> set (uncaught eff')
           \<and> (discards_queued (webdriver env) \<longrightarrow> response step' = response step)"
proof -
  let ?wd = "webdriver env"
  let ?n = "polls_within ?wd 60000"
  from driver_keeps_reads[OF assms(3)]
  have k: "title_reads eff1 = title_reads eff"
    by simp
  let ?eff2 = "eff1\<lparr>visited := visited eff1 @ [url_format env endpoint],
                     title_reads := title_reads eff1 + ?n,
                     uncaught := uncaught eff1 @ [TimeoutError]\<rparr>"
  from assms(8) k
  have "\<forall>i < ?n. \<not> prefix (js_to_string marker) (titles ?wd (title_reads eff1 + i))"
    by simp
  from authorize_flow_timeout[OF assms(6,7) this]
  have flow: "authorize_flow env d endpoint step eff1 =
          (if discards_queued ?wd then (Pending, step, ?eff2)
           else after_wait env step ?eff2 (title_reads eff1 + ?n))" .
  show ?thesis
  proof (cases "discards_queued ?wd")
    case True
    with flow oauthAuthorize_flow[OF assms(1-5)]
    have "oauthAuthorize env step eff = (Pending, step, ?eff2)" by simp
    with True show ?thesis by simp
  next
    case False
    obtain out step' eff' where
      a: "after_wait env step ?eff2 (title_reads eff1 + ?n) = (out, step', eff')"
      by (cases "after_wait env step ?eff2 (title_reads eff1 + ?n)") auto
    from after_wait_outcome[OF a]
    have "\<forall>e. out \<noteq> Rejected e" and "TimeoutError \<in> set (uncaught eff')"
      by auto
    moreover from False flow a oauthAuthorize_flow[OF assms(1-5)]
    have "oauthAuthorize env step eff = (out, step', eff')" by simp
    ultimately show ?thesis using False by simp
  qed
qed

lemma oauth_step_setup:
  "get_prop (compiled oauth_step) ''data''
     = Inr (JObj [(''browser'', JStr ''chrome''), (''redirect_uri'', JStr ''https://cb'')])"
  "get_prop (JObj [(''browser'', JStr ''chrome''), (''redirect_uri'', JStr ''https://cb'')])
     ''browser'' = Inr (JStr ''chrome'')"
  "driver (ref_env ctx transport wd) (JStr ''chrome'') no_effects =
     Inr (no_effects\<lparr>sessions :=
       [\<lparr>browser_name = JStr ''chrome'',
         chrome_arguments = [''user-data-dir=/home/user/.kapit/chrome-profile'']\<rparr>]\<rparr>)"
  "get_prop (compiled oauth_step) ''url'' = Inr (JStr ''https://idp.test/authorize'')"
  "url_parse (ref_env ctx transport wd) (JStr ''https://idp.test/authorize'') False
     = Inr \<lparr>href = ''https://idp.test/authorize'', query = JNull\<rparr>"
  "get_prop (JObj [(''browser'', JStr ''chrome''), (''redirect_uri'', JStr ''https://cb'')])
     ''redirect_uri'' = Inr (JStr ''https://cb'')"
  by (simp_all add: oauth_step_def oauth_request_def driver_def ref_env_def no_effects_def)

lemma idle_never_matches:
  "\<forall>i < polls_within (webdriver (ref_env ctx transport idle_driver)) 60000.
     \<not> prefix (js_to_string (JStr ''https://cb''))
         (titles (webdriver (ref_env ctx transport idle_driver)) (title_reads no_effects + i))"
  by (simp add: ref_env_def idle_driver_def)

theorem oauth_timeout_not_rejected_witness:
  "fst (oauthAuthorize (ref_env ada_context refused idle_driver) oauth_step no_effects)
     \<noteq> Rejected TimeoutError
   \<and> response (fst (snd (oauthAuthorize (ref_env ada_context refused idle_driver)
                           oauth_step no_effects))) = response oauth_step
   \<and> TimeoutError \<in> set (uncaught (snd (snd (oauthAuthorize
         (ref_env ada_context refused idle_driver) oauth_step no_effects))))"
proof -
  let ?env = "ref_env ada_context refused idle_driver"
  have nav: "nav_error (webdriver ?env) = None"
    by (simp add: ref_env_def idle_driver_def)
  have dq: "discards_queued (webdriver ?env)"
    by (simp add: ref_env_def idle_driver_def)
  from oauth_timeout_not_rejected[OF oauth_step_setup(1-5) nav oauth_step_setup(6)
      idle_never_matches] dq
  show ?thesis by auto
qed

lemma never_matches:
  "nav_error (webdriver (ref_env ctx transport (idle_driver\<lparr>discards_queued := q\<rparr>))) = None"
  "\<forall>i < polls_within (webdriver (ref_env ctx transport (idle_driver\<lparr>discards_queued := q\<rparr>))) 60000.
     \<not> prefix (js_to_string (JStr ''https://cb''))
         (titles (webdriver (ref_env ctx transport (idle_driver\<lparr>discards_queued := q\<rparr>)))
            (title_reads (no_effects\<lparr>sessions := ss\<rparr>) + i))"
  by (simp_all add: ref_env_def idle_driver_def)

lemma idle_driver_discards: "idle_driver\<lparr>discards_queued := True\<rparr> = idle_driver"
  by (simp add: idle_driver_def)

lemma lenient_idle_driver_eq: "idle_driver\<lparr>discards_queued := False\<rparr> = lenient_idle_driver"
  by (simp add: lenient_idle_driver_def)

lemma oauth_timeout_lenient_driver:
  "(case oauthAuthorize (ref_env ada_context refused lenient_idle_driver) oauth_step no_effects of
      (Resolved r, step', eff') \<Rightarrow> (r ''completed'', r ''code'', quits eff', uncaught eff')
    | _ \<Rightarrow> (None, None, 0, []))
   = (Some (JBool True), Some JUndefined, 1, [TimeoutError])"
  unfolding oauthAuthorize_flow[OF oauth_step_setup(1-5)]
    authorize_flow_timeout[OF never_matches(1)[of _ _ False, unfolded lenient_idle_driver_eq]
      oauth_step_setup(6) never_matches(2)[of _ _ False, unfolded lenient_idle_driver_eq]]
  by (simp add: after_wait_def extract_code_def set_response_def lenient_idle_driver_def
      idle_driver_def ref_env_def ref_query_def no_effects_def)

text \<open>
  Claim C3, as stated, fails: with a driver whose title never begins with the marker the
  wait times out, the promise is never settled, hence not rejected, and the session is
  never quit. With a driver that runs the queued commands all the same, the promise is
  resolved.
\<close>

theorem oauth_timeout_counterexample:
  "wait_until
     (title_matches (JObj [(''browser'', JStr ''chrome''), (''redirect_uri'', JStr ''https://cb'')]))
     (titles idle_driver) (polls_within idle_driver 60000) 0 = (Some TimeoutError, 3)
   \<and> fst (oauthAuthorize (ref_env ada_context refused idle_driver) oauth_step no_effects)
       \<noteq> Rejected TimeoutError
   \<and> fst (oauthAuthorize (ref_env ada_context refused idle_driver) oauth_step no_effects)
       = Pending
   \<and> quits (snd (snd (oauthAuthorize (ref_env ada_context refused idle_driver)
                         oauth_step no_effects))) = 0
   \<and> uncaught (snd (snd (oauthAuthorize (ref_env ada_context refused idle_driver)
                            oauth_step no_effects))) = [TimeoutError]
   \<and> fst (oauthAuthorize (ref_env ada_context refused lenient_idle_driver) oauth_step
            no_effects) \<noteq> Rejected TimeoutError"
proof -
  let ?env = "ref_env ada_context refused idle_driver"
  let ?d = "JObj [(''browser'', JStr ''chrome''), (''redirect_uri'', JStr ''https://cb'')]"
  have n: "polls_within idle_driver 60000 = 3"
    by (simp add: idle_driver_def)
  have "wait_until (title_matches ?d) (titles idle_driver) 3 0 = (Some TimeoutError, 0 + 3)"
    by (rule wait_until_timeout) (simp add: title_matches_def idle_driver_def)
  with n have w: "wait_until (title_matches ?d) (titles idle_driver)
                    (polls_within idle_driver 60000) 0 = (Some TimeoutError, 3)"
    by simp
  have run: "oauthAuthorize ?env oauth_step no_effects =
          (Pending, oauth_step,
           \<lparr>sessions = [\<lparr>browser_name = JStr ''chrome'',
               chrome_arguments = [''user-data-dir=/home/user/.kapit/chrome-profile'']\<rparr>],
            visited = [''https://idp.test/authorize''], title_reads = 3, quits = 0,
            uncaught = [TimeoutError]\<rparr>)"
    unfolding oauthAuthorize_flow[OF oauth_step_setup(1-5)]
      authorize_flow_timeout[OF never_matches(1)[of _ _ True, unfolded idle_driver_discards]
        oauth_step_setup(6) never_matches(2)[of _ _ True, unfolded idle_driver_discards]]
    by (simp add: ref_env_def idle_driver_def no_effects_def)
  have "fst (oauthAuthorize (ref_env ada_context refused lenient_idle_driver) oauth_step
              no_effects) \<noteq> Rejected TimeoutError"
    using oauth_timeout_lenient_driver
    by (auto split: prod.splits outcome.splits)
  then show ?thesis
    unfolding run using w by simp
qed

text \<open>
  Claim C10. The browser and the marker are read from \<^verbatim>\<open>step.compiled.data\<close>: when the
  compiled request has no \<^verbatim>\<open>data\<close> (the read raises or gives \<^verbatim>\<open>undefined\<close> or \<^verbatim>\<open>null\<close>),
  \<^verbatim>\<open>oauthAuthorize\<close> throws a \<^verbatim>\<open>TypeError\<close> with the step, its response record and the
  browser sessions as they were.
\<close>

theorem oauthAuthorize_without_data:
  assumes "get_prop (compiled step) ''data'' \<in> {Inl TypeError, Inr JUndefined, Inr JNull}"
  shows "oauthAuthorize env step eff = (Threw TypeError, step, eff)"
  using assms by (auto simp: oauthAuthorize_def)

theorem oauthAuthorize_without_data_witness:
  "get_prop (compiled flat_oauth_step) ''data'' = Inr JUndefined
   \<and> get_prop (compiled flat_oauth_step) ''browser'' = Inr (JStr ''chrome'')
   \<and> oauthAuthorize (ref_env ada_context refused redirecting_driver) flat_oauth_step no_effects
       = (Threw TypeError, flat_oauth_step, no_effects)
   \<and> sessions no_effects = []"
proof -
  have a: "get_prop (compiled flat_oauth_step) ''data'' = Inr JUndefined"
    and b: "get_prop (compiled flat_oauth_step) ''browser'' = Inr (JStr ''chrome'')"
    by (simp_all add: flat_oauth_step_def flat_oauth_request_def)
  from a have "get_prop (compiled flat_oauth_step) ''data''
                 \<in> {Inl TypeError, Inr JUndefined, Inr JNull}"
    by simp
  from oauthAuthorize_without_data[OF this] a b show ?thesis
    by (simp add: no_effects_def)
qed

end
